theory Spec2Isabelle
  imports Main
begin

section \<open>Python strings\<close>

text \<open>
  A Python \<open>str\<close> is a sequence of Unicode code points and \<open>len\<close> counts code points,
  so a string is modelled as the list of its code points. \<open>lit\<close> turns an ASCII literal
  into that representation.
\<close>

type_synonym pystr = "nat list"

definition lit :: "string \<Rightarrow> pystr" where
  "lit s = map of_char s"

text \<open>
  \<open>str.strip()\<close> and the regular expression class \<open>\s\<close> (on a \<open>str\<close> pattern) both use
  CPython's \<open>Py_UNICODE_ISSPACE\<close>: U+0009..U+000D, U+001C..U+0020, U+0085, U+00A0,
  U+1680, U+2000..U+200A, U+2028, U+2029, U+202F, U+205F and U+3000.
\<close>

definition isspace :: "nat \<Rightarrow> bool" where
  "isspace c =
     ((9 \<le> c \<and> c \<le> 13) \<or> (28 \<le> c \<and> c \<le> 32) \<or> c = 133 \<or> c = 160 \<or> c = 5760 \<or>
      (8192 \<le> c \<and> c \<le> 8202) \<or> c = 8232 \<or> c = 8233 \<or> c = 8239 \<or> c = 8287 \<or>
      c = 12288)"

text \<open>\<open>s.strip()\<close>: leading and trailing whitespace removed.\<close>

definition strip :: "pystr \<Rightarrow> pystr" where
  "strip s = rev (dropWhile isspace (rev (dropWhile isspace s)))"

text \<open>\<open>s.replace(c, r)\<close> for a pattern \<open>c\<close> of one character.\<close>

definition replace_char :: "nat \<Rightarrow> pystr \<Rightarrow> pystr \<Rightarrow> pystr" where
  "replace_char c r s = concat (map (\<lambda>x. if x = c then r else [x]) s)"

text \<open>
  \<open>html.escape(s)\<close> (with the default \<open>quote=True\<close>) is five replacements in this order:
  \<open>&\<close>, \<open><\<close>, \<open>>\<close>, the double quote (34) and the single quote (39).
\<close>

definition html_escape :: "pystr \<Rightarrow> pystr" where
  "html_escape s =
     replace_char 39 (lit ''&#x27;'')
       (replace_char 34 (lit ''&quot;'')
         (replace_char 62 (lit ''&gt;'')
           (replace_char 60 (lit ''&lt;'')
             (replace_char 38 (lit ''&amp;'') s))))"

text \<open>
  \<open>re.sub(r'\s+', ' ', s)\<close>: every maximal run of whitespace becomes one space (32).
\<close>

function re_sub_ws :: "pystr \<Rightarrow> pystr" where
  "re_sub_ws [] = []"
| "re_sub_ws (c # cs) =
     (if isspace c then 32 # re_sub_ws (dropWhile isspace cs) else c # re_sub_ws cs)"
  by pat_completeness auto
termination
  by (relation "measure length") (auto simp: length_dropWhile_le less_Suc_eq_le)

text \<open>
  \<^verbatim>\<open>
  def sanitize_query(query: str) -> str:
      query = html.escape(query.strip())
      return re.sub(r'\s+', ' ', query)
  \<close>
\<close>

definition sanitize_query :: "pystr \<Rightarrow> pystr" where
  "sanitize_query query = re_sub_ws (html_escape (strip query))"

text \<open>The five characters that \<open>html.escape\<close> rewrites.\<close>

definition html_special :: "nat \<Rightarrow> bool" where
  "html_special c = (c = 38 \<or> c = 60 \<or> c = 62 \<or> c = 34 \<or> c = 39)"

text \<open>What \<open>html.escape\<close> puts in the place of one character.\<close>

definition escape_char :: "nat \<Rightarrow> pystr" where
  "escape_char c =
     (if c = 38 then lit ''&amp;'' else if c = 60 then lit ''&lt;''
      else if c = 62 then lit ''&gt;'' else if c = 34 then lit ''&quot;''
      else if c = 39 then lit ''&#x27;'' else [c])"

section \<open>Further string operations\<close>

text \<open>\<open>s.split(sep)\<close> for a separator of one character; the result is never empty.\<close>

fun py_split :: "nat \<Rightarrow> pystr \<Rightarrow> pystr list" where
  "py_split sep [] = [[]]"
| "py_split sep (c # cs) =
     (if c = sep then [] # py_split sep cs
      else (case py_split sep cs of
              [] \<Rightarrow> [[c]]
            | part # parts \<Rightarrow> (c # part) # parts))"

text \<open>\<open>sep.join(parts)\<close>.\<close>

fun join :: "pystr \<Rightarrow> pystr list \<Rightarrow> pystr" where
  "join sep [] = []"
| "join sep [p] = p"
| "join sep (p # q # ps) = p @ sep @ join sep (q # ps)"

text \<open>\<open>sub in s\<close> on strings: \<open>sub\<close> occurs in \<open>s\<close> at some position.\<close>

fun contains :: "pystr \<Rightarrow> pystr \<Rightarrow> bool" where
  "contains sub [] = (sub = [])"
| "contains sub (c # cs) = (take (length sub) (c # cs) = sub \<or> contains sub cs)"

text \<open>
  The comprehension \<open>[line.strip() for line in s.split('\n') if line.strip()]\<close> of
  \<open>format_response\<close>.
\<close>

definition stripped_lines :: "pystr \<Rightarrow> pystr list" where
  "stripped_lines s = map strip (filter (\<lambda>line. strip line \<noteq> []) (py_split 10 s))"

section \<open>Data model\<close>

text \<open>A row of \<open>section_data\<close>, the table loaded from \<open>models/legal_sections.pkl\<close>.\<close>

record section_row =
  row_act :: pystr
  row_section_number :: pystr
  row_full_text :: pystr

text \<open>
  A dictionary built by \<open>find_relevant_sections\<close> (keys \<open>act\<close>, \<open>section_number\<close>,
  \<open>text\<close>, \<open>score\<close>). The score is a floating-point distance of the index that the
  service only carries along; its type is left open.
\<close>

record 'sc retrieved_section =
  sec_act :: pystr
  sec_section_number :: pystr
  sec_text :: pystr
  sec_score :: 'sc

text \<open>
  A reference built by \<open>process_legal_query\<close> (keys \<open>act\<close>, \<open>section_number\<close>,
  \<open>summary\<close>, \<open>full_text\<close>).
\<close>

record reference =
  ref_act :: pystr
  ref_section_number :: pystr
  ref_summary :: pystr
  ref_full_text :: pystr

text \<open>
  A case built by \<open>fetch_kanoon_results\<close>. \<open>get_attribute("href")\<close> gives \<open>None\<close> for
  a link without that attribute, so the URL is optional.
\<close>

record kanoon_case =
  title :: pystr
  url :: "pystr option"

text \<open>The dictionary stored under \<open>current_context\<close> by \<open>ConversationState.update\<close>.\<close>

record turn_context =
  ctx_query :: pystr
  ctx_answer :: pystr
  ctx_references :: "reference list"
  ctx_cases :: "kanoon_case list"

text \<open>The first component of a history entry: the strings \<open>'user'\<close> and \<open>'assistant'\<close>.\<close>

datatype role = User | Assistant

text \<open>
  A session dictionary. \<open>current_context\<close>, \<open>references\<close> and \<open>cases\<close> start as
  \<open>None\<close>.
\<close>

record session =
  current_context :: "turn_context option"
  references :: "reference list option"
  cases :: "kanoon_case list option"
  history :: "(role \<times> pystr) list"

text \<open>\<open>ConversationState.sessions\<close>: a dictionary from session ids to sessions.\<close>

type_synonym sessions = "pystr \<rightharpoonup> session"

record process_query_request =
  req_query :: pystr
  req_session_id :: pystr

record response_model =
  resp_answer :: pystr
  resp_references :: "reference list"
  resp_cases :: "kanoon_case list"
  resp_is_follow_up :: bool
  resp_session_id :: pystr

text \<open>
  Exceptions. Every exception this code meets is a subclass of \<open>Exception\<close>, FastAPI's
  \<open>HTTPException(status_code, detail)\<close> included; any other exception is identified by
  a description.
\<close>

datatype exn = HTTPException nat pystr | OtherException pystr

text \<open>
  The collaborators the service calls, and the library functions whose tables are not
  part of it:
  \<^item> \<open>embed_and_search query k\<close>: \<open>model.encode([query])\<close> followed by
    \<open>index.search(query_embedding, k)\<close>, giving the rows \<open>D[0]\<close> and \<open>I[0]\<close>, or the
    exception one of them raises;
  \<^item> \<open>section_data idx\<close>: \<open>section_data[idx]\<close>, \<open>None\<close> where the lookup raises;
  \<^item> \<open>bart input_text max_length\<close>: tokenizer, \<open>bart_model.generate\<close> and decode, or the
    exception one of them raises;
  \<^item> \<open>kanoon_search query max_results\<close>: the body of the \<open>try\<close> in
    \<open>fetch_kanoon_results\<close> up to \<open>find_elements\<close>, giving \<open>r.text\<close> and
    \<open>r.get_attribute("href")\<close> of every result link, or the exception raised;
  \<^item> \<open>driver_quit query\<close>: the exception \<open>driver.quit()\<close> raises in the \<open>finally\<close>
    clause, if any;
  \<^item> \<open>lower\<close>: \<open>str.lower\<close>;
  \<^item> \<open>exc_str\<close>: \<open>str(e)\<close> of an exception.
\<close>

record 'sc collaborators =
  embed_and_search :: "pystr \<Rightarrow> nat \<Rightarrow> exn + ('sc list \<times> int list)"
  section_data :: "int \<Rightarrow> section_row option"
  bart :: "pystr \<Rightarrow> nat \<Rightarrow> exn + pystr"
  kanoon_search :: "pystr \<Rightarrow> nat \<Rightarrow> exn + (pystr \<times> pystr option) list"
  driver_quit :: "pystr \<Rightarrow> exn option"
  lower :: "pystr \<Rightarrow> pystr"
  exc_str :: "exn \<Rightarrow> pystr"

text \<open>A call of a collaborator, recorded in the order in which the calls are made.\<close>

datatype collab_call =
  EmbedSearch pystr nat
| Generate pystr nat
| Browser pystr nat

section \<open>Session store\<close>

definition empty_session :: session where
  "empty_session =
     \<lparr>current_context = None, references = None, cases = None, history = []\<rparr>"

text \<open>
  \<^verbatim>\<open>
  def get_session(self, session_id: str):
      if session_id not in self.sessions:
          self.sessions[session_id] = {'current_context': None, 'references': None,
                                       'cases': None, 'history': []}
      return self.sessions[session_id]
  \<close>
  The model returns the session and the store after the call.
\<close>

definition get_session :: "sessions \<Rightarrow> pystr \<Rightarrow> session \<times> sessions" where
  "get_session store session_id =
     (case store session_id of
        None \<Rightarrow> (empty_session, store(session_id \<mapsto> empty_session))
      | Some s \<Rightarrow> (s, store))"

text \<open>
  \<open>ConversationState.update\<close>: replaces \<open>current_context\<close>, \<open>references\<close> and \<open>cases\<close>
  and appends the user turn and then the assistant turn to \<open>history\<close>.
\<close>

definition update ::
  "sessions \<Rightarrow> pystr \<Rightarrow> pystr \<Rightarrow> pystr \<Rightarrow> reference list \<Rightarrow> kanoon_case list \<Rightarrow> sessions" where
  "update store session_id query answer refs cs =
     (let (s, store1) = get_session store session_id in
      store1(session_id \<mapsto>
        s\<lparr>current_context :=
             Some \<lparr>ctx_query = query, ctx_answer = answer,
                   ctx_references = refs, ctx_cases = cs\<rparr>,
          references := Some refs,
          cases := Some cs,
          history := history s @ [(User, query), (Assistant, answer)]\<rparr>))"

section \<open>Retriever\<close>

text \<open>
  The comprehension of \<open>find_relevant_sections\<close> over \<open>enumerate(I[0])\<close>: it raises
  where \<open>section_data[idx]\<close> or \<open>D[0][i]\<close> does.
\<close>

fun build_sections ::
  "'sc collaborators \<Rightarrow> 'sc list \<Rightarrow> (nat \<times> int) list \<Rightarrow> exn + 'sc retrieved_section list" where
  "build_sections env D [] = Inr []"
| "build_sections env D ((i, idx) # rest) =
     (case section_data env idx of
        None \<Rightarrow> Inl (OtherException (lit ''IndexError''))
      | Some row \<Rightarrow>
          if i < length D then
            (case build_sections env D rest of
               Inl e \<Rightarrow> Inl e
             | Inr ss \<Rightarrow>
                 Inr (\<lparr>sec_act = row_act row, sec_section_number = row_section_number row,
                       sec_text = row_full_text row, sec_score = D ! i\<rparr> # ss))
          else Inl (OtherException (lit ''IndexError'')))"

definition find_relevant_sections ::
  "'sc collaborators \<Rightarrow> pystr \<Rightarrow> nat \<Rightarrow> (exn + 'sc retrieved_section list) \<times> collab_call list" where
  "find_relevant_sections env query k =
     (case embed_and_search env query k of
        Inl e \<Rightarrow> (Inl e, [EmbedSearch query k])
      | Inr (D, I) \<Rightarrow> (build_sections env D (enumerate 0 I), [EmbedSearch query k]))"

section \<open>Answer generator\<close>

text \<open>
  \<open>generate_with_bart\<close>: the whole body is inside \<open>try\<close>, and \<open>except Exception\<close>
  returns the empty string.
\<close>

definition generate_with_bart ::
  "'sc collaborators \<Rightarrow> pystr \<Rightarrow> nat \<Rightarrow> pystr \<times> collab_call list" where
  "generate_with_bart env input_text max_length =
     (case bart env input_text max_length of
        Inl e \<Rightarrow> ([], [Generate input_text max_length])
      | Inr out \<Rightarrow> (out, [Generate input_text max_length]))"

text \<open>
  \<^verbatim>\<open>
  def generate_direct_answer(query: str, context: str = "") -> str:
      input_text = f"Generate 3 legal steps for: {query}. Context: {context}" if context
                   else f"Legal steps for: {query}"
      steps = generate_with_bart(input_text, 200)
      return steps if steps else "Immediate legal steps:"
  \<close>
  \<open>direct_answer_input\<close> is the value of \<open>input_text\<close>.
\<close>

definition direct_answer_input :: "pystr \<Rightarrow> pystr \<Rightarrow> pystr" where
  "direct_answer_input query ctx =
     (if ctx \<noteq> [] then
        lit ''Generate 3 legal steps for: '' @ query @ lit ''. Context: '' @ ctx
      else lit ''Legal steps for: '' @ query)"

definition generate_direct_answer ::
  "'sc collaborators \<Rightarrow> pystr \<Rightarrow> pystr \<Rightarrow> pystr \<times> collab_call list" where
  "generate_direct_answer env query ctx =
     (let (steps, calls) = generate_with_bart env (direct_answer_input query ctx) 200
      in (if steps \<noteq> [] then steps else lit ''Immediate legal steps:'', calls))"

text \<open>\<open>generate_legal_analysis\<close> returns \<open>{'summary': summary}\<close>; the model returns the summary.\<close>

definition generate_legal_analysis ::
  "'sc collaborators \<Rightarrow> pystr \<Rightarrow> pystr \<Rightarrow> pystr \<Rightarrow> pystr \<times> collab_call list" where
  "generate_legal_analysis env txt act_name section_number =
     generate_with_bart env
       (lit ''Explain in one line: '' @ act_name @ lit '' Section '' @ section_number @
        lit '' - '' @ take 1000 txt) 100"

section \<open>Case-law fetcher\<close>

text \<open>
  \<open>fetch_kanoon_results\<close>: an exception inside \<open>try\<close> gives the empty list; an exception
  of \<open>driver.quit()\<close> in \<open>finally\<close> leaves the function. Titles are \<open>r.text[:80]\<close>.
\<close>

definition fetch_kanoon_results ::
  "'sc collaborators \<Rightarrow> pystr \<Rightarrow> nat \<Rightarrow> (exn + kanoon_case list) \<times> collab_call list" where
  "fetch_kanoon_results env query max_results =
     (let found =
            (case kanoon_search env query max_results of
               Inl e \<Rightarrow> []
             | Inr rs \<Rightarrow>
                 map (\<lambda>(t, href). \<lparr>title = take 80 t, url = href\<rparr>) (take max_results rs))
      in (case driver_quit env query of
            Some e \<Rightarrow> (Inl e, [Browser query max_results])
          | None \<Rightarrow> (Inr found, [Browser query max_results])))"

section \<open>Follow-up classifier\<close>

definition follow_up_indicators :: "pystr list" where
  "follow_up_indicators =
     [lit ''follow up'', lit ''previous'', lit ''explain'', lit ''more info'',
      lit ''about that'']"

text \<open>
  \<^verbatim>\<open>
  def is_follow_up(query: str, session: dict) -> bool:
      if not session.get('current_context'):
          return False
      follow_up_indicators = ['follow up', 'previous', 'explain', 'more info', 'about that']
      return any(indicator in query.lower() for indicator in follow_up_indicators)
  \<close>
  A stored context is a dictionary of four keys, hence truthy.
\<close>

definition is_follow_up :: "'sc collaborators \<Rightarrow> pystr \<Rightarrow> session \<Rightarrow> bool" where
  "is_follow_up env query s =
     (if current_context s = None then False
      else list_ex (\<lambda>indicator. contains indicator (lower env query)) follow_up_indicators)"

section \<open>Response composer\<close>

text \<open>How an f-string renders the optional URL of a case.\<close>

definition str_url :: "pystr option \<Rightarrow> pystr" where
  "str_url u = (case u of None \<Rightarrow> lit ''None'' | Some v \<Rightarrow> v)"

text \<open>One line of the three \<open>for\<close> loops of \<open>format_response\<close>.\<close>

definition provision_line :: "reference \<Rightarrow> pystr" where
  "provision_line r =
     [10] @ lit ''- '' @ ref_act r @ lit '' Sec '' @ ref_section_number r @ lit '': '' @
     ref_summary r"

definition recommendation_line :: "pystr \<Rightarrow> pystr" where
  "recommendation_line r = [10] @ lit ''- '' @ r"

definition case_line :: "kanoon_case \<Rightarrow> pystr" where
  "case_line c = [10] @ lit ''- '' @ take 50 (title c) @ lit '' ('' @ str_url (url c) @ lit '')''"

text \<open>
  \<open>format_response\<close>. The headers start with the code points U+1F6A8, U+2696 U+FE0F,
  U+1F4CC and U+1F517; each \<open>for\<close> loop appends its lines to \<open>response\<close> from left to
  right.
\<close>

definition format_response ::
  "'sc collaborators \<Rightarrow> pystr \<Rightarrow> reference list \<Rightarrow> kanoon_case list \<Rightarrow> pystr \<times> collab_call list" where
  "format_response env base_answer refs cs =
     (let steps = stripped_lines base_answer;
          response0 =
            [128680] @ lit '' Immediate Steps:'' @ [10] @
            join [10] (map (\<lambda>step. lit ''- '' @ step) (take 3 steps));
          response1 = response0 @ [10, 10, 9878, 65039] @ lit '' Relevant Provisions:'';
          response2 = foldl (\<lambda>response r. response @ provision_line r) response1 (take 3 refs);
          (rec_text, calls) =
            generate_with_bart env (lit ''Generate 3 legal recommendations: '' @ base_answer) 150;
          recommendations = stripped_lines rec_text;
          response3 = response2 @ [10, 10, 128204] @ lit '' Key Recommendations:'';
          response4 =
            foldl (\<lambda>response r. response @ recommendation_line r) response3
              (take 3 recommendations);
          response5 =
            (if cs \<noteq> [] then
               foldl (\<lambda>response c. response @ case_line c)
                 (response4 @ [10, 10, 128279] @ lit '' Related Cases:'') (take 2 cs)
             else response4)
      in (response5, calls))"

section \<open>Query orchestrator\<close>

text \<open>
  The loop of \<open>process_legal_query\<close> that builds one reference per section, with the text
  cut to 300 characters and \<open>'...'\<close> appended.
\<close>

fun build_references ::
  "'sc collaborators \<Rightarrow> 'sc retrieved_section list \<Rightarrow> reference list \<times> collab_call list" where
  "build_references env [] = ([], [])"
| "build_references env (s # ss) =
     (let (summary, calls1) =
            generate_legal_analysis env (sec_text s) (sec_act s) (sec_section_number s);
          (refs, calls2) = build_references env ss
      in (\<lparr>ref_act = sec_act s, ref_section_number = sec_section_number s,
           ref_summary = summary, ref_full_text = take 300 (sec_text s) @ lit ''...''\<rparr> # refs,
          calls1 @ calls2))"

text \<open>
  The body of the \<open>try\<close> block of \<open>process_legal_query\<close>: the result or the exception
  raised, the session store afterwards and the collaborator calls made, in order.
  \<open>ResponseModel\<close> validates its fields, so a \<open>None\<close> for \<open>references\<close> or \<open>cases\<close> raises
  there; subscripting a \<open>None\<close> context raises too.
\<close>

definition try_body ::
  "'sc collaborators \<Rightarrow> sessions \<Rightarrow> process_query_request \<Rightarrow>
     (exn + response_model) \<times> sessions \<times> collab_call list" where
  "try_body env store request =
     (let (s, store1) = get_session store (req_session_id request);
          query = sanitize_query (req_query request)
      in
      if length query < 3 then
        (Inl (HTTPException 400 (lit ''Please ask a more detailed question.'')), store1, [])
      else if is_follow_up env query s then
        (case current_context s of
           None \<Rightarrow> (Inl (OtherException (lit ''TypeError'')), store1, [])
         | Some c \<Rightarrow>
             let ctx = join [10] [lit ''Previous: '' @ ctx_query c, lit ''Answer: '' @ ctx_answer c];
                 (answer, calls) = generate_direct_answer env query ctx
             in (case (references s, cases s) of
                   (Some refs, Some cs) \<Rightarrow>
                     (Inr \<lparr>resp_answer = answer, resp_references = refs, resp_cases = cs,
                           resp_is_follow_up = True,
                           resp_session_id = req_session_id request\<rparr>,
                      store1, calls)
                 | _ \<Rightarrow> (Inl (OtherException (lit ''ValidationError'')), store1, calls)))
      else
        (case find_relevant_sections env query 5 of
           (Inl e, calls1) \<Rightarrow> (Inl e, store1, calls1)
         | (Inr sections, calls1) \<Rightarrow>
             if sections = [] then
               (Inl (HTTPException 404 (lit ''No relevant laws found'')), store1, calls1)
             else
               let ctx =
                     join [10]
                       (map (\<lambda>x. sec_act x @ lit '' Section '' @ sec_section_number x @
                                 lit '': '' @ sec_text x)
                          (take 2 sections));
                   (base_answer, calls2) = generate_direct_answer env query ctx;
                   (refs, calls3) = build_references env (take 2 sections)
               in (case fetch_kanoon_results env query 3 of
                     (Inl e, calls4) \<Rightarrow> (Inl e, store1, calls1 @ calls2 @ calls3 @ calls4)
                   | (Inr cs, calls4) \<Rightarrow>
                       let (formatted_answer, calls5) = format_response env base_answer refs cs;
                           store2 =
                             update store1 (req_session_id request) query formatted_answer refs cs
                       in (Inr \<lparr>resp_answer = formatted_answer, resp_references = refs,
                                 resp_cases = cs, resp_is_follow_up = False,
                                 resp_session_id = req_session_id request\<rparr>,
                           store2, calls1 @ calls2 @ calls3 @ calls4 @ calls5))))"

text \<open>
  \<open>process_legal_query\<close>: the \<open>try\<close> block under
  \<open>except Exception as e: raise HTTPException(status_code=500, detail=str(e))\<close>.
  \<open>HTTPException\<close> is an \<open>Exception\<close>, so the handler also receives the exceptions that
  the block raises itself.
\<close>

definition process_legal_query ::
  "'sc collaborators \<Rightarrow> sessions \<Rightarrow> process_query_request \<Rightarrow>
     (exn + response_model) \<times> sessions \<times> collab_call list" where
  "process_legal_query env store request =
     (case try_body env store request of
        (Inl e, store', calls) \<Rightarrow> (Inl (HTTPException 500 (exc_str env e)), store', calls)
      | (Inr r, store', calls) \<Rightarrow> (Inr r, store', calls))"

text \<open>
  The status of the HTTP response: 200 for a returned model, the status code of a raised
  \<open>HTTPException\<close>, and 500 for any other exception that leaves the handler.
\<close>

definition http_status :: "exn + response_model \<Rightarrow> nat" where
  "http_status r =
     (case r of
        Inr m \<Rightarrow> 200
      | Inl (HTTPException code d) \<Rightarrow> code
      | Inl (OtherException d) \<Rightarrow> 500)"

text \<open>
  A sequence of requests served one after the other, each with the collaborators as they
  behave during that request. The handler never awaits, so requests do not interleave.
\<close>

fun serve :: "sessions \<Rightarrow> ('sc collaborators \<times> process_query_request) list \<Rightarrow> sessions" where
  "serve store [] = store"
| "serve store ((env, request) # rest) =
     serve (fst (snd (process_legal_query env store request))) rest"

section \<open>Collaborators for concrete runs\<close>

text \<open>\<open>str.lower\<close> on ASCII text.\<close>

definition ascii_lower :: "pystr \<Rightarrow> pystr" where
  "ascii_lower s = map (\<lambda>c. if 65 \<le> c \<and> c \<le> 90 then c + 32 else c) s"

text \<open>
  Collaborators that all succeed: the index knows one section, generation answers every
  prompt with the same two lines, and the case search finds one link whose text is 60
  characters long. For \<open>str(e)\<close> they give the detail of an \<open>HTTPException\<close> and the
  description of any other exception; what \<open>str\<close> gives for an \<open>HTTPException\<close> depends
  on the version of the framework, and no statement below depends on it.
\<close>

definition demo_env :: "nat collaborators" where
  "demo_env =
     \<lparr>embed_and_search = (\<lambda>q k. Inr ([0], [0])),
      section_data =
        (\<lambda>idx. if idx = 0 then
                  Some \<lparr>row_act = lit ''IPC'', row_section_number = lit ''279'',
                        row_full_text = lit ''Rash driving''\<rparr>
                else None),
      bart = (\<lambda>p n. Inr (lit ''Call police'' @ [10] @ lit ''File FIR'')),
      kanoon_search =
        (\<lambda>q n. Inr [(replicate 60 65, Some (lit ''http://k/1''))]),
      driver_quit = (\<lambda>q. None),
      lower = ascii_lower,
      exc_str = (\<lambda>e. case e of HTTPException code d \<Rightarrow> d | OtherException d \<Rightarrow> d)\<rparr>"

text \<open>The same collaborators with a retrieval that raises.\<close>

definition failing_env :: "nat collaborators" where
  "failing_env = demo_env\<lparr>embed_and_search := (\<lambda>q k. Inl (OtherException (lit ''index'')))\<rparr>"

text \<open>The same collaborators with an index search that finds nothing.\<close>

definition no_result_env :: "nat collaborators" where
  "no_result_env = demo_env\<lparr>embed_and_search := (\<lambda>q k. Inr ([], []))\<rparr>"

text \<open>The same collaborators with a generation that raises on every prompt.\<close>

definition silent_env :: "nat collaborators" where
  "silent_env = demo_env\<lparr>bart := (\<lambda>p n. Inl (OtherException (lit ''CUDA out of memory'')))\<rparr>"

text \<open>Requests: a fresh question, a follow-up and a query that is too short.\<close>

definition fresh_request :: process_query_request where
  "fresh_request = \<lparr>req_query = lit ''road accident'', req_session_id = lit ''s1''\<rparr>"

definition follow_up_request :: process_query_request where
  "follow_up_request = \<lparr>req_query = lit ''please explain more'', req_session_id = lit ''s1''\<rparr>"

definition short_request :: process_query_request where
  "short_request = \<lparr>req_query = lit ''hi'', req_session_id = lit ''s1''\<rparr>"

text \<open>A session with one resolved turn, and a store that holds it under \<open>"s1"\<close>.\<close>

definition resolved_session :: session where
  "resolved_session =
     \<lparr>current_context =
        Some \<lparr>ctx_query = lit ''road accident'', ctx_answer = lit ''Call police'',
              ctx_references = [], ctx_cases = []\<rparr>,
      references = Some [], cases = Some [],
      history = [(User, lit ''road accident''), (Assistant, lit ''Call police'')]\<rparr>"

definition resolved_store :: sessions where
  "resolved_store = Map.empty(lit ''s1'' \<mapsto> resolved_session)"

text \<open>A case as the fetcher builds it from a link text of 60 characters.\<close>

definition long_case :: kanoon_case where
  "long_case = \<lparr>title = replicate 60 65, url = Some (lit ''http://k/1'')\<rparr>"

section \<open>Session invariant\<close>

text \<open>
  A session is consistent when its history holds whole pairs of turns and
  \<open>references\<close> and \<open>cases\<close> are those of \<open>current_context\<close>; before the first resolved
  turn all three are \<open>None\<close> and the history is empty.
\<close>

definition session_consistent :: "session \<Rightarrow> bool" where
  "session_consistent s =
     (even (length (history s)) \<and>
      (case current_context s of
         None \<Rightarrow> references s = None \<and> cases s = None \<and> history s = []
       | Some c \<Rightarrow> references s = Some (ctx_references c) \<and> cases s = Some (ctx_cases c)))"

text \<open>A store is consistent when every session in it is.\<close>

definition store_consistent :: "sessions \<Rightarrow> bool" where
  "store_consistent store = (\<forall>sid s. store sid = Some s \<longrightarrow> session_consistent s)"

section \<open>Properties of the sanitizer\<close>

text \<open>\<open>html.escape\<close> works character by character.\<close>

lemma replace_char_append:
  "replace_char c r (a @ b) = replace_char c r a @ replace_char c r b"
  by (simp add: replace_char_def)

lemma html_escape_append: "html_escape (a @ b) = html_escape a @ html_escape b"
  by (simp add: html_escape_def replace_char_append)

lemma html_escape_single: "html_escape [c] = escape_char c"
  by (simp add: html_escape_def escape_char_def replace_char_def lit_def)

lemma html_escape_Nil: "html_escape [] = []"
  by (simp add: html_escape_def replace_char_def)

lemma html_escape_Cons: "html_escape (c # cs) = escape_char c @ html_escape cs"
  using html_escape_append [of "[c]" cs] by (simp add: html_escape_single)

lemma escape_char_plain: "\<not> html_special c \<Longrightarrow> escape_char c = [c]"
  by (simp add: html_special_def escape_char_def)

lemma escape_char_special:
  "html_special c \<Longrightarrow> 38 \<in> set (escape_char c) \<and> 1 < length (escape_char c)"
  by (auto simp: html_special_def escape_char_def lit_def)

lemma escape_char_nonspace: "\<not> isspace c \<Longrightarrow> x \<in> set (escape_char c) \<Longrightarrow> \<not> isspace x"
  by (auto simp: escape_char_def lit_def isspace_def split: if_splits)

lemma escape_char_space: "isspace c \<Longrightarrow> escape_char c = [c]"
  by (auto simp: escape_char_def isspace_def)

lemma html_escape_plain: "list_all (\<lambda>c. \<not> html_special c) s \<Longrightarrow> html_escape s = s"
  by (induction s) (simp_all add: html_escape_Nil html_escape_Cons escape_char_plain)

lemma length_html_escape: "length s \<le> length (html_escape s)"
proof (induction s)
  case Nil
  show ?case by (simp add: html_escape_Nil)
next
  case (Cons c cs)
  have "1 \<le> length (escape_char c)"
    by (simp add: escape_char_def lit_def)
  with Cons show ?case by (simp add: html_escape_Cons)
qed

lemma html_escape_longer:
  "\<not> list_all (\<lambda>c. \<not> html_special c) s \<Longrightarrow> length s < length (html_escape s)"
proof (induction s)
  case Nil
  then show ?case by simp
next
  case (Cons c cs)
  show ?case
  proof (cases "html_special c")
    case True
    with escape_char_special [of c] length_html_escape [of cs] show ?thesis
      by (simp add: html_escape_Cons)
  next
    case False
    with Cons show ?thesis by (simp add: html_escape_Cons escape_char_plain)
  qed
qed

lemma html_escape_keeps_special:
  "\<not> list_all (\<lambda>c. \<not> html_special c) s \<Longrightarrow> \<not> list_all (\<lambda>c. \<not> html_special c) (html_escape s)"
proof (induction s)
  case Nil
  then show ?case by simp
next
  case (Cons c cs)
  show ?case
  proof (cases "html_special c")
    case True
    with escape_char_special [of c] have "38 \<in> set (escape_char c)" by simp
    then show ?thesis
      by (auto simp: html_escape_Cons list_all_iff html_special_def)
  next
    case False
    with Cons show ?thesis by (simp add: html_escape_Cons escape_char_plain)
  qed
qed

lemma filter_dropWhile_neg: "filter (\<lambda>x. \<not> P x) (dropWhile P xs) = filter (\<lambda>x. \<not> P x) xs"
  by (induction xs) simp_all

lemma nonspace_re_sub_ws:
  "filter (\<lambda>x. \<not> isspace x) (re_sub_ws s) = filter (\<lambda>x. \<not> isspace x) s"
proof (induction s rule: re_sub_ws.induct)
  case 1
  show ?case by simp
next
  case (2 c cs)
  have sp: "isspace 32" by (simp add: isspace_def)
  show ?case
  proof (cases "isspace c")
    case True
    with 2 sp show ?thesis by (simp add: filter_dropWhile_neg)
  next
    case False
    with 2 show ?thesis by simp
  qed
qed

lemma nonspace_strip:
  "filter (\<lambda>x. \<not> isspace x) (strip s) = filter (\<lambda>x. \<not> isspace x) s"
proof -
  have "filter (\<lambda>x. \<not> isspace x) (strip s)
      = rev (filter (\<lambda>x. \<not> isspace x) (dropWhile isspace (rev (dropWhile isspace s))))"
    by (simp add: strip_def rev_filter)
  also have "\<dots> = rev (filter (\<lambda>x. \<not> isspace x) (rev (dropWhile isspace s)))"
    by (simp only: filter_dropWhile_neg)
  also have "\<dots> = filter (\<lambda>x. \<not> isspace x) s"
    by (simp add: rev_filter [symmetric] filter_dropWhile_neg)
  finally show ?thesis .
qed

lemma nonspace_html_escape:
  "filter (\<lambda>x. \<not> isspace x) (html_escape s) = html_escape (filter (\<lambda>x. \<not> isspace x) s)"
proof (induction s)
  case Nil
  show ?case by (simp add: html_escape_Nil)
next
  case (Cons c cs)
  show ?case
  proof (cases "isspace c")
    case True
    with Cons show ?thesis by (simp add: html_escape_Cons escape_char_space)
  next
    case False
    then have "filter (\<lambda>x. \<not> isspace x) (escape_char c) = escape_char c"
      by (auto simp: filter_id_conv dest: escape_char_nonspace)
    with False Cons show ?thesis by (simp add: html_escape_Cons)
  qed
qed

lemma nonspace_sanitize_query:
  "filter (\<lambda>x. \<not> isspace x) (sanitize_query s) = html_escape (filter (\<lambda>x. \<not> isspace x) s)"
  by (simp add: sanitize_query_def nonspace_re_sub_ws nonspace_html_escape nonspace_strip)

lemma special_nonspace: "html_special c \<Longrightarrow> \<not> isspace c"
  by (auto simp: html_special_def isspace_def)

lemma plain_filter_nonspace:
  "list_all (\<lambda>c. \<not> html_special c) (filter (\<lambda>x. \<not> isspace x) s) = list_all (\<lambda>c. \<not> html_special c) s"
  by (induction s) (auto dest: special_nonspace)

lemma sanitize_not_idempotent:
  assumes "\<not> list_all (\<lambda>c. \<not> html_special c) s"
  shows "sanitize_query (sanitize_query s) \<noteq> sanitize_query s"
proof
  assume eq: "sanitize_query (sanitize_query s) = sanitize_query s"
  let ?N = "filter (\<lambda>x. \<not> isspace x)"
  let ?u = "html_escape (?N s)"
  from assms have "\<not> list_all (\<lambda>c. \<not> html_special c) (?N s)"
    by (simp add: plain_filter_nonspace)
  then have "\<not> list_all (\<lambda>c. \<not> html_special c) ?u"
    by (rule html_escape_keeps_special)
  then have "length ?u < length (html_escape ?u)"
    by (rule html_escape_longer)
  moreover have "html_escape ?u = ?u"
    using arg_cong [OF eq, of ?N] by (simp add: nonspace_sanitize_query)
  ultimately show False by simp
qed

lemma strip_self:
  assumes "s = [] \<or> (\<not> isspace (hd s) \<and> \<not> isspace (last s))"
  shows "strip s = s"
proof (cases "s = []")
  case True
  then show ?thesis by (simp add: strip_def)
next
  case False
  with assms have h: "\<not> isspace (hd s)" and l: "\<not> isspace (last s)" by simp_all
  from h have d: "dropWhile isspace s = s"
    by (simp add: dropWhile_eq_self_iff)
  from l False have "dropWhile isspace (rev s) = rev s"
    by (simp add: dropWhile_eq_self_iff hd_rev)
  with d show ?thesis by (simp add: strip_def)
qed

lemma dropWhile_trimmed_front: "dropWhile P s = [] \<or> \<not> P (hd (dropWhile P s))"
  using hd_dropWhile [of P s] by blast

lemma strip_trimmed:
  "strip s = [] \<or> (\<not> isspace (hd (strip s)) \<and> \<not> isspace (last (strip s)))"
proof (cases "strip s = []")
  case True
  then show ?thesis by simp
next
  case False
  let ?y = "dropWhile isspace s"
  let ?z = "dropWhile isspace (rev ?y)"
  from False have z: "?z \<noteq> []" by (simp add: strip_def)
  then have hz: "\<not> isspace (hd ?z)" using hd_dropWhile [of isspace "rev ?y"] by blast
  from z have y: "?y \<noteq> []" by (auto dest: set_dropWhileD)
  then have hy: "\<not> isspace (hd ?y)" using hd_dropWhile [of isspace s] by blast
  have "rev ?y = takeWhile isspace (rev ?y) @ ?z" by simp
  then have "?y = rev ?z @ rev (takeWhile isspace (rev ?y))"
    by (metis rev_append rev_rev_ident)
  with z have "hd ?y = hd (rev ?z)" by (metis hd_append2 rev_is_Nil_conv)
  with hy have "\<not> isspace (hd (strip s))" by (simp add: strip_def)
  moreover from z hz have "\<not> isspace (last (strip s))" by (simp add: strip_def last_rev)
  ultimately show ?thesis by simp
qed

lemma re_sub_ws_Nil_iff: "re_sub_ws s = [] \<longleftrightarrow> s = []"
  by (cases s) simp_all

lemma hd_re_sub_ws: "s \<noteq> [] \<Longrightarrow> \<not> isspace (hd s) \<Longrightarrow> hd (re_sub_ws s) = hd s"
  by (cases s) simp_all

lemma dropWhile_last:
  "xs \<noteq> [] \<Longrightarrow> \<not> P (last xs) \<Longrightarrow> dropWhile P xs \<noteq> [] \<and> last (dropWhile P xs) = last xs"
  by (induction xs) (auto split: if_splits)

lemma last_re_sub_ws: "s \<noteq> [] \<Longrightarrow> \<not> isspace (last s) \<Longrightarrow> last (re_sub_ws s) = last s"
proof (induction s rule: re_sub_ws.induct)
  case 1
  then show ?case by simp
next
  case (2 c cs)
  show ?case
  proof (cases "isspace c")
    case True
    with 2 have cs: "cs \<noteq> []" "\<not> isspace (last cs)" by (auto split: if_splits)
    then have d: "dropWhile isspace cs \<noteq> []" "last (dropWhile isspace cs) = last cs"
      using dropWhile_last [of cs isspace] by simp_all
    from d(1) have ne: "re_sub_ws (dropWhile isspace cs) \<noteq> []"
      by (simp only: re_sub_ws_Nil_iff not_False_eq_True)
    have "\<not> isspace (last (dropWhile isspace cs))" using d(2) cs(2) by simp
    with d(1) have "last (re_sub_ws (dropWhile isspace cs)) = last (dropWhile isspace cs)"
      by (rule 2(1) [OF True])
    with d(2) have "last (re_sub_ws (dropWhile isspace cs)) = last cs"
      by (simp only:)
    moreover from True have "re_sub_ws (c # cs) = 32 # re_sub_ws (dropWhile isspace cs)"
      by simp
    moreover from ne have "last (32 # re_sub_ws (dropWhile isspace cs)) = last (re_sub_ws (dropWhile isspace cs))"
      by (simp only: last.simps if_False)
    moreover from cs(1) have "last (c # cs) = last cs" by simp
    ultimately show ?thesis by (simp only:)
  next
    case False
    show ?thesis
    proof (cases "cs = []")
      case True
      with False show ?thesis by simp
    next
      case ne: False
      with 2 False show ?thesis by (simp add: re_sub_ws_Nil_iff)
    qed
  qed
qed

lemma re_sub_ws_trimmed:
  assumes "s = [] \<or> (\<not> isspace (hd s) \<and> \<not> isspace (last s))"
  shows "re_sub_ws s = [] \<or> (\<not> isspace (hd (re_sub_ws s)) \<and> \<not> isspace (last (re_sub_ws s)))"
  using assms by (cases "s = []") (simp_all add: hd_re_sub_ws last_re_sub_ws)

lemma re_sub_ws_idem: "re_sub_ws (re_sub_ws s) = re_sub_ws s"
proof (induction s rule: re_sub_ws.induct)
  case 1
  show ?case by simp
next
  case (2 c cs)
  have sp: "isspace 32" by (simp add: isspace_def)
  show ?case
  proof (cases "isspace c")
    case True
    let ?d = "dropWhile isspace cs"
    have "dropWhile isspace (re_sub_ws ?d) = re_sub_ws ?d"
    proof (cases "?d = []")
      case True
      then show ?thesis by (simp only: re_sub_ws.simps dropWhile.simps)
    next
      case False
      then have "\<not> isspace (hd ?d)" using hd_dropWhile [of isspace cs] by blast
      with False show ?thesis
        by (simp add: dropWhile_eq_self_iff hd_re_sub_ws)
    qed
    with True sp 2(1) [OF True] show ?thesis by simp
  next
    case False
    with 2 show ?thesis by simp
  qed
qed

lemma set_re_sub_ws: "set (re_sub_ws s) \<subseteq> insert 32 (set s)"
proof (induction s rule: re_sub_ws.induct)
  case 1
  show ?case by simp
next
  case (2 c cs)
  show ?case
  proof (cases "isspace c")
    case True
    with 2(1) [OF True] set_dropWhileD [of _ isspace cs] show ?thesis by auto
  next
    case False
    with 2 show ?thesis by auto
  qed
qed

lemma set_strip: "set (strip s) \<subseteq> set s"
  by (auto simp: strip_def dest!: set_dropWhileD)

lemma sanitize_plain:
  assumes "list_all (\<lambda>c. \<not> html_special c) s"
  shows "sanitize_query s = re_sub_ws (strip s)"
proof -
  from assms set_strip [of s] have "list_all (\<lambda>c. \<not> html_special c) (strip s)"
    by (auto simp: list_all_iff)
  then show ?thesis by (simp add: sanitize_query_def html_escape_plain)
qed

lemma sanitize_idempotent_plain:
  assumes "list_all (\<lambda>c. \<not> html_special c) s"
  shows "sanitize_query (sanitize_query s) = sanitize_query s"
proof -
  let ?t = "re_sub_ws (strip s)"
  have t: "sanitize_query s = ?t" using assms by (rule sanitize_plain)
  have "\<not> html_special 32" by (simp add: html_special_def)
  with assms set_strip [of s] set_re_sub_ws [of "strip s"]
  have plain: "list_all (\<lambda>c. \<not> html_special c) ?t"
    by (auto simp: list_all_iff)
  have "strip ?t = ?t"
    by (rule strip_self, rule re_sub_ws_trimmed, rule strip_trimmed)
  with plain have "sanitize_query ?t = re_sub_ws ?t" by (simp add: sanitize_plain)
  with t show ?thesis by (simp add: re_sub_ws_idem)
qed

text \<open>
  C3 (amended): \<open>sanitize_query\<close> is idempotent on a string exactly when the string
  contains none of the five characters that \<open>html.escape\<close> rewrites (\<open>&\<close>, \<open><\<close>, \<open>>\<close>,
  double quote, single quote). On such a string a second pass changes nothing; on any
  other string the second pass escapes the \<open>&\<close> that the first pass produced.
\<close>

theorem sanitize_query_idempotent_iff:
  "(sanitize_query (sanitize_query s) = sanitize_query s) = list_all (\<lambda>c. \<not> html_special c) s"
  using sanitize_idempotent_plain [of s] sanitize_not_idempotent [of s] by blast

text \<open>The amended claim at \<open>"  road   accident "\<close>, which has no such character.\<close>

theorem sanitize_query_idempotent_iff_witness:
  "sanitize_query (sanitize_query (lit ''  road   accident '')) = sanitize_query (lit ''  road   accident '')"
  using sanitize_query_idempotent_iff [of "lit ''  road   accident ''"]
  by (simp add: lit_def html_special_def)

text \<open>
  C3 as stated fails: \<open>sanitize_query("a&b")\<close> is \<open>"a&amp;b"\<close>, and sanitizing that
  gives \<open>"a&amp;amp;b"\<close>.
\<close>

theorem sanitize_query_not_idempotent:
  "sanitize_query (sanitize_query (lit ''a&b'')) \<noteq> sanitize_query (lit ''a&b'')"
  by (simp add: sanitize_query_def lit_def strip_def html_escape_def replace_char_def isspace_def)

lemma foldl_append_concat: "foldl (\<lambda>acc x. acc @ f x) a xs = a @ concat (map f xs)"
  by (induction xs arbitrary: a) simp_all


section \<open>Properties of the follow-up classifier\<close>

lemma take_eq_prefix: "(take (length sub) s = sub) = (\<exists>suf. s = sub @ suf)"
proof
  assume "take (length sub) s = sub"
  then have "s = sub @ drop (length sub) s"
    by (metis append_take_drop_id)
  then show "\<exists>suf. s = sub @ suf" ..
next
  assume "\<exists>suf. s = sub @ suf"
  then show "take (length sub) s = sub" by auto
qed

lemma contains_iff: "contains sub s = (\<exists>pre suf. s = pre @ sub @ suf)"
proof (induction s)
  case Nil
  show ?case by auto
next
  case (Cons c cs)
  show ?case
  proof
    assume "contains sub (c # cs)"
    then consider "take (length sub) (c # cs) = sub" | "contains sub cs" by auto
    then show "\<exists>pre suf. c # cs = pre @ sub @ suf"
    proof cases
      case 1
      then obtain suf where "c # cs = sub @ suf" unfolding take_eq_prefix ..
      then have "c # cs = [] @ sub @ suf" by simp
      then show ?thesis by blast
    next
      case 2
      with Cons obtain pre suf where "cs = pre @ sub @ suf" by blast
      then have "c # cs = (c # pre) @ sub @ suf" by simp
      then show ?thesis by blast
    qed
  next
    assume "\<exists>pre suf. c # cs = pre @ sub @ suf"
    then obtain pre suf where eq: "c # cs = pre @ sub @ suf" by blast
    show "contains sub (c # cs)"
    proof (cases pre)
      case Nil
      with eq have "\<exists>suf. c # cs = sub @ suf" by auto
      then have "take (length sub) (c # cs) = sub" unfolding take_eq_prefix .
      then show ?thesis by simp
    next
      case (Cons p ps)
      with eq have "cs = ps @ sub @ suf" by simp
      with Cons.IH have "contains sub cs" by blast
      then show ?thesis by simp
    qed
  qed
qed

text \<open>
  C5: \<open>is_follow_up\<close> is false when the session has no \<open>current_context\<close>; otherwise it
  is true exactly when one of the five markers occurs in the lower-cased query.
\<close>

theorem is_follow_up_markers:
  "is_follow_up env query s =
     (current_context s \<noteq> None \<and>
      (\<exists>m \<in> {lit ''follow up'', lit ''previous'', lit ''explain'', lit ''more info'',
              lit ''about that''}.
         \<exists>pre suf. lower env query = pre @ m @ suf))"
  by (simp add: is_follow_up_def follow_up_indicators_def contains_iff)

text \<open>C5 on a session without a resolved turn and on one with a resolved turn.\<close>

theorem is_follow_up_markers_witness:
  "\<not> is_follow_up demo_env (lit ''please explain more'') empty_session \<and>
   is_follow_up demo_env (lit ''Please EXPLAIN more'') resolved_session \<and>
   \<not> is_follow_up demo_env (lit ''what about bail'') resolved_session"
proof -
  have low: "lower demo_env (lit ''Please EXPLAIN more'') = lit ''please '' @ lit ''explain'' @ lit '' more''"
    by (simp add: demo_env_def ascii_lower_def lit_def)
  have "\<not> contains m (lit ''what about bail'')"
    if "m \<in> set follow_up_indicators" for m
    using that by (auto simp: follow_up_indicators_def lit_def)
  then have no: "\<not> is_follow_up demo_env (lit ''what about bail'') resolved_session"
    by (simp add: is_follow_up_def list_ex_iff demo_env_def ascii_lower_def lit_def [of "''what about bail''"])
  from low no is_follow_up_markers [of demo_env "lit ''please explain more''" empty_session]
    is_follow_up_markers [of demo_env "lit ''Please EXPLAIN more''" resolved_session]
  show ?thesis
    by (auto simp: empty_session_def resolved_session_def)
qed

section \<open>Properties of the answer generator\<close>

lemma generate_with_bart_calls:
  "snd (generate_with_bart env input_text max_length) = [Generate input_text max_length]"
  by (simp add: generate_with_bart_def split: sum.splits)

text \<open>
  C8: a failure of the generation capability is caught in \<open>generate_with_bart\<close>, which
  then returns the empty string; \<open>generate_direct_answer\<close> returns the fallback phrase
  whenever \<open>generate_with_bart\<close> returns the empty string; so \<open>generate_direct_answer\<close>
  never returns the empty string.
\<close>

theorem generate_direct_answer_nonempty:
  "(bart env input_text max_length = Inl e \<longrightarrow>
      fst (generate_with_bart env input_text max_length) = []) \<and>
   (fst (generate_with_bart env (direct_answer_input query ctx) 200) = [] \<longrightarrow>
      fst (generate_direct_answer env query ctx) = lit ''Immediate legal steps:'') \<and>
   fst (generate_direct_answer env query ctx) \<noteq> []"
  by (auto simp: generate_with_bart_def generate_direct_answer_def lit_def split: sum.splits)

text \<open>C8 with a generation that raises on every prompt.\<close>

theorem generate_direct_answer_nonempty_witness:
  "bart silent_env (direct_answer_input (lit ''bail'') []) 200 =
     Inl (OtherException (lit ''CUDA out of memory'')) \<and>
   fst (generate_with_bart silent_env (direct_answer_input (lit ''bail'') []) 200) = [] \<and>
   fst (generate_direct_answer silent_env (lit ''bail'') []) = lit ''Immediate legal steps:'' \<and>
   fst (generate_direct_answer silent_env (lit ''bail'') []) \<noteq> []"
proof -
  have b: "bart silent_env (direct_answer_input (lit ''bail'') []) 200 =
     Inl (OtherException (lit ''CUDA out of memory''))"
    by (simp add: silent_env_def demo_env_def)
  from b generate_direct_answer_nonempty
    [of silent_env "direct_answer_input (lit ''bail'') []" 200
        "OtherException (lit ''CUDA out of memory'')" "lit ''bail''" "[]"]
  show ?thesis by auto
qed

section \<open>Properties of the session store\<close>

lemma get_session_new:
  "store sid = None \<Longrightarrow> get_session store sid = (empty_session, store(sid \<mapsto> empty_session))"
  by (simp add: get_session_def)

lemma get_session_old: "store sid = Some s \<Longrightarrow> get_session store sid = (s, store)"
  by (simp add: get_session_def)

lemma get_session_lookup: "snd (get_session store sid) sid = Some (fst (get_session store sid))"
  by (simp add: get_session_def split: option.splits)

lemma get_session_other:
  "other \<noteq> sid \<Longrightarrow> snd (get_session store sid) other = store other"
  by (simp add: get_session_def split: option.splits)

lemma get_session_context:
  "current_context (fst (get_session store sid)) \<noteq> None \<Longrightarrow> snd (get_session store sid) = store"
  by (auto simp: get_session_def empty_session_def split: option.splits)

lemma update_lookup:
  "update store sid query answer refs cs sid =
     Some ((fst (get_session store sid))
       \<lparr>current_context :=
          Some \<lparr>ctx_query = query, ctx_answer = answer, ctx_references = refs, ctx_cases = cs\<rparr>,
        references := Some refs, cases := Some cs,
        history := history (fst (get_session store sid)) @ [(User, query), (Assistant, answer)]\<rparr>)"
  by (simp add: update_def case_prod_beta get_session_def split: option.splits)

lemma update_other:
  "other \<noteq> sid \<Longrightarrow> update store sid query answer refs cs other = store other"
  by (simp add: update_def get_session_def case_prod_beta split: option.splits)

section \<open>Properties of the query orchestrator\<close>

lemma try_body_short:
  assumes "length (sanitize_query (req_query request)) < 3"
  shows "try_body env store request =
           (Inl (HTTPException 400 (lit ''Please ask a more detailed question.'')),
            snd (get_session store (req_session_id request)), [])"
  using assms by (simp add: try_body_def Let_def case_prod_beta)

lemma try_body_follow_up:
  assumes "3 \<le> length (sanitize_query (req_query request))"
    and "is_follow_up env (sanitize_query (req_query request))
           (fst (get_session store (req_session_id request)))"
    and "current_context (fst (get_session store (req_session_id request))) = Some c"
    and "references (fst (get_session store (req_session_id request))) = Some refs"
    and "cases (fst (get_session store (req_session_id request))) = Some cs"
  shows "try_body env store request =
           (Inr \<lparr>resp_answer =
                   fst (generate_direct_answer env (sanitize_query (req_query request))
                          (join [10] [lit ''Previous: '' @ ctx_query c,
                                      lit ''Answer: '' @ ctx_answer c])),
                 resp_references = refs, resp_cases = cs, resp_is_follow_up = True,
                 resp_session_id = req_session_id request\<rparr>,
            snd (get_session store (req_session_id request)),
            snd (generate_direct_answer env (sanitize_query (req_query request))
                   (join [10] [lit ''Previous: '' @ ctx_query c,
                               lit ''Answer: '' @ ctx_answer c])))"
  using assms by (simp add: try_body_def Let_def case_prod_beta)

lemma try_body_follow_up_store:
  assumes "3 \<le> length (sanitize_query (req_query request))"
    and "is_follow_up env (sanitize_query (req_query request))
           (fst (get_session store (req_session_id request)))"
  shows "fst (snd (try_body env store request)) = snd (get_session store (req_session_id request))"
  using assms
  by (simp add: try_body_def Let_def case_prod_beta split: option.splits)

lemma try_body_retrieval_error:
  assumes "3 \<le> length (sanitize_query (req_query request))"
    and "\<not> is_follow_up env (sanitize_query (req_query request))
           (fst (get_session store (req_session_id request)))"
    and "fst (find_relevant_sections env (sanitize_query (req_query request)) 5) = Inl e"
  shows "try_body env store request =
           (Inl e, snd (get_session store (req_session_id request)),
            snd (find_relevant_sections env (sanitize_query (req_query request)) 5))"
  using assms by (simp add: try_body_def Let_def case_prod_beta)

lemma try_body_no_sections:
  assumes "3 \<le> length (sanitize_query (req_query request))"
    and "\<not> is_follow_up env (sanitize_query (req_query request))
           (fst (get_session store (req_session_id request)))"
    and "fst (find_relevant_sections env (sanitize_query (req_query request)) 5) = Inr []"
  shows "try_body env store request =
           (Inl (HTTPException 404 (lit ''No relevant laws found'')),
            snd (get_session store (req_session_id request)),
            snd (find_relevant_sections env (sanitize_query (req_query request)) 5))"
  using assms by (simp add: try_body_def Let_def case_prod_beta)

lemma try_body_error_store:
  assumes "fst (try_body env store request) = Inl e"
  shows "fst (snd (try_body env store request)) = snd (get_session store (req_session_id request))"
  using assms
  by (simp add: try_body_def Let_def case_prod_beta split: if_splits option.splits sum.splits)

lemma try_body_store_cases:
  "fst (snd (try_body env store request)) = snd (get_session store (req_session_id request)) \<or>
   (\<exists>query answer refs cs.
      fst (snd (try_body env store request)) =
        update (snd (get_session store (req_session_id request))) (req_session_id request)
          query answer refs cs)"
  by (simp add: try_body_def Let_def case_prod_beta split: option.splits sum.splits) blast

lemma process_legal_query_store:
  "fst (snd (process_legal_query env store request)) = fst (snd (try_body env store request))"
  by (simp add: process_legal_query_def case_prod_beta split: sum.splits)

lemma process_legal_query_calls:
  "snd (snd (process_legal_query env store request)) = snd (snd (try_body env store request))"
  by (simp add: process_legal_query_def case_prod_beta split: sum.splits)

lemma process_legal_query_error:
  "fst (try_body env store request) = Inl e \<Longrightarrow>
   fst (process_legal_query env store request) = Inl (HTTPException 500 (exc_str env e))"
  by (simp add: process_legal_query_def case_prod_beta split: sum.splits)

lemma process_legal_query_ok:
  "fst (try_body env store request) = Inr r \<Longrightarrow>
   fst (process_legal_query env store request) = Inr r"
  by (simp add: process_legal_query_def case_prod_beta split: sum.splits)

lemma process_legal_query_error_iff:
  "fst (process_legal_query env store request) = Inl e \<Longrightarrow>
   \<exists>e'. fst (try_body env store request) = Inl e' \<and> e = HTTPException 500 (exc_str env e')"
  by (auto simp: process_legal_query_def case_prod_beta split: sum.splits)

lemma http_status_process_legal_query:
  "http_status (fst (process_legal_query env store request)) = 200 \<or>
   http_status (fst (process_legal_query env store request)) = 500"
  by (simp add: process_legal_query_def http_status_def case_prod_beta split: sum.splits)

lemma short_query_no_collaborator:
  "length (sanitize_query (req_query request)) < 3 \<Longrightarrow>
   snd (snd (process_legal_query env store request)) = []"
  by (simp add: process_legal_query_calls try_body_short)

lemma sanitize_hi: "sanitize_query (lit ''hi'') = lit ''hi''"
  by (simp add: sanitize_query_def lit_def strip_def html_escape_def replace_char_def isspace_def)

lemma sanitize_road_accident: "sanitize_query (lit ''road accident'') = lit ''road accident''"
  by (simp add: sanitize_query_def lit_def strip_def html_escape_def replace_char_def isspace_def)

lemma sanitize_explain:
  "sanitize_query (lit ''please explain more'') = lit ''please explain more''"
  by (simp add: sanitize_query_def lit_def strip_def html_escape_def replace_char_def isspace_def)

lemma is_follow_up_no_context [simp]: "\<not> is_follow_up env query empty_session"
  by (simp add: is_follow_up_def empty_session_def)

text \<open>
  C1 is not what the code does. The \<open>HTTPException\<close> with status 400 for a query that is
  too short and the one with status 404 for an empty retrieval are raised inside the
  \<open>try\<close> block, \<open>except Exception\<close> catches both, and the handler raises status 500
  in their place: here for the query \<open>"hi"\<close> with any collaborators and any store, and for
  \<open>"road accident"\<close> with an index search that finds nothing.
\<close>

theorem short_and_empty_retrieval_give_500:
  "fst (process_legal_query env store short_request) =
     Inl (HTTPException 500
            (exc_str env (HTTPException 400 (lit ''Please ask a more detailed question.'')))) \<and>
   http_status (fst (process_legal_query env store short_request)) = 500 \<and>
   fst (process_legal_query no_result_env Map.empty fresh_request) =
     Inl (HTTPException 500
            (exc_str no_result_env (HTTPException 404 (lit ''No relevant laws found'')))) \<and>
   http_status (fst (process_legal_query no_result_env Map.empty fresh_request)) = 500"
proof -
  have short: "length (sanitize_query (req_query short_request)) < 3"
    by (simp add: short_request_def sanitize_hi) (simp add: lit_def)
  have a: "fst (process_legal_query env store short_request) =
     Inl (HTTPException 500
            (exc_str env (HTTPException 400 (lit ''Please ask a more detailed question.''))))"
    by (rule process_legal_query_error) (simp add: try_body_short [OF short])
  have q: "sanitize_query (req_query fresh_request) = lit ''road accident''"
    by (simp add: fresh_request_def sanitize_road_accident)
  have len: "3 \<le> length (sanitize_query (req_query fresh_request))"
    unfolding q by (simp add: lit_def)
  have g: "fst (get_session Map.empty (req_session_id fresh_request)) = empty_session"
    by (simp add: get_session_def)
  have nf: "\<not> is_follow_up no_result_env (sanitize_query (req_query fresh_request))
              (fst (get_session Map.empty (req_session_id fresh_request)))"
    unfolding g by simp
  have ret: "fst (find_relevant_sections no_result_env (sanitize_query (req_query fresh_request)) 5)
               = Inr []"
    by (simp add: find_relevant_sections_def no_result_env_def demo_env_def enumerate_eq_zip)
  have "fst (try_body no_result_env Map.empty fresh_request) =
          Inl (HTTPException 404 (lit ''No relevant laws found''))"
    by (simp add: try_body_no_sections [OF len nf ret])
  then have b: "fst (process_legal_query no_result_env Map.empty fresh_request) =
     Inl (HTTPException 500
            (exc_str no_result_env (HTTPException 404 (lit ''No relevant laws found''))))"
    by (rule process_legal_query_error)
  from a b show ?thesis by (simp add: http_status_def)
qed

text \<open>
  C2 (amended): a request classified as a follow-up leaves the whole session store as it
  was, so the session's \<open>references\<close>, \<open>cases\<close>, \<open>current_context\<close> and \<open>history\<close> are
  unchanged and no turn is appended; the response carries the session's references and
  cases and is marked as a follow-up.
\<close>

theorem follow_up_leaves_store:
  assumes "3 \<le> length (sanitize_query (req_query request))"
    and "is_follow_up env (sanitize_query (req_query request))
           (fst (get_session store (req_session_id request)))"
  shows "fst (snd (process_legal_query env store request)) = store \<and>
         store (req_session_id request) = Some (fst (get_session store (req_session_id request))) \<and>
         (\<forall>refs cs.
            references (fst (get_session store (req_session_id request))) = Some refs \<and>
            cases (fst (get_session store (req_session_id request))) = Some cs \<longrightarrow>
            (\<exists>answer.
               fst (process_legal_query env store request) =
                 Inr \<lparr>resp_answer = answer, resp_references = refs, resp_cases = cs,
                      resp_is_follow_up = True, resp_session_id = req_session_id request\<rparr>))"
proof -
  let ?sid = "req_session_id request"
  let ?s = "fst (get_session store ?sid)"
  from assms(2) have ctx: "current_context ?s \<noteq> None"
    by (auto simp: is_follow_up_def split: if_splits)
  then have same: "snd (get_session store ?sid) = store"
    by (rule get_session_context)
  have st: "fst (snd (process_legal_query env store request)) = store"
    by (simp add: process_legal_query_store try_body_follow_up_store [OF assms] same)
  from same get_session_lookup [of store ?sid] have look: "store ?sid = Some ?s"
    by simp
  have resp: "\<exists>answer.
      fst (process_legal_query env store request) =
        Inr \<lparr>resp_answer = answer, resp_references = refs, resp_cases = cs,
             resp_is_follow_up = True, resp_session_id = ?sid\<rparr>"
    if "references ?s = Some refs" "cases ?s = Some cs" for refs cs
  proof -
    from ctx obtain c where c: "current_context ?s = Some c" by blast
    show ?thesis
      by (rule exI, rule process_legal_query_ok)
         (simp add: try_body_follow_up [OF assms c that])
  qed
  from st look resp show ?thesis by blast
qed

lemma follow_up_request_facts:
  "3 \<le> length (sanitize_query (req_query follow_up_request))"
  "is_follow_up demo_env (sanitize_query (req_query follow_up_request))
     (fst (get_session resolved_store (req_session_id follow_up_request)))"
proof -
  show "3 \<le> length (sanitize_query (req_query follow_up_request))"
    by (simp add: follow_up_request_def sanitize_explain) (simp add: lit_def)
  have "lower demo_env (lit ''please explain more'') = lit ''please '' @ lit ''explain'' @ lit '' more''"
    by (simp add: demo_env_def ascii_lower_def lit_def)
  then have "contains (lit ''explain'') (lower demo_env (lit ''please explain more''))"
    unfolding contains_iff by blast
  then show "is_follow_up demo_env (sanitize_query (req_query follow_up_request))
     (fst (get_session resolved_store (req_session_id follow_up_request)))"
    by (simp add: follow_up_request_def sanitize_explain is_follow_up_def get_session_def
        resolved_store_def resolved_session_def follow_up_indicators_def)
qed

text \<open>The amended C2 on the store with one resolved turn and the query \<open>"please explain more"\<close>.\<close>

theorem follow_up_leaves_store_witness:
  "fst (snd (process_legal_query demo_env resolved_store follow_up_request)) = resolved_store \<and>
   resolved_store (lit ''s1'') = Some resolved_session \<and>
   (\<exists>answer.
      fst (process_legal_query demo_env resolved_store follow_up_request) =
        Inr \<lparr>resp_answer = answer, resp_references = [], resp_cases = [],
             resp_is_follow_up = True, resp_session_id = lit ''s1''\<rparr>)"
  using follow_up_leaves_store [OF follow_up_request_facts]
  by (simp add: follow_up_request_def resolved_store_def get_session_def resolved_session_def)

text \<open>
  C2 as stated fails: after the follow-up \<open>"please explain more"\<close> on that store the
  response is marked as a follow-up and the history of the session is still the one pair
  of the first turn; the new query and its answer are not appended.
\<close>

theorem follow_up_appends_no_turn:
  "fst (process_legal_query demo_env resolved_store follow_up_request) =
     Inr \<lparr>resp_answer = lit ''Call police'' @ [10] @ lit ''File FIR'', resp_references = [],
          resp_cases = [], resp_is_follow_up = True, resp_session_id = lit ''s1''\<rparr> \<and>
   history (the (fst (snd (process_legal_query demo_env resolved_store follow_up_request))
                   (lit ''s1''))) =
     [(User, lit ''road accident''), (Assistant, lit ''Call police'')] \<and>
   history (the (fst (snd (process_legal_query demo_env resolved_store follow_up_request))
                   (lit ''s1''))) \<noteq>
     [(User, lit ''road accident''), (Assistant, lit ''Call police''),
      (User, lit ''please explain more''),
      (Assistant, lit ''Call police'' @ [10] @ lit ''File FIR'')]"
proof -
  have g: "get_session resolved_store (req_session_id follow_up_request) =
             (resolved_session, resolved_store)"
    by (simp add: get_session_def resolved_store_def follow_up_request_def)
  have c: "current_context (fst (get_session resolved_store (req_session_id follow_up_request))) =
      Some \<lparr>ctx_query = lit ''road accident'', ctx_answer = lit ''Call police'',
            ctx_references = [], ctx_cases = []\<rparr>"
    and r: "references (fst (get_session resolved_store (req_session_id follow_up_request))) = Some []"
    and k: "cases (fst (get_session resolved_store (req_session_id follow_up_request))) = Some []"
    by (simp_all add: g resolved_session_def)
  have ans: "fst (generate_direct_answer demo_env q ctx) = lit ''Call police'' @ [10] @ lit ''File FIR''"
    for q ctx
    by (simp add: generate_direct_answer_def generate_with_bart_def demo_env_def case_prod_beta
        lit_def)
  have t: "try_body demo_env resolved_store follow_up_request =
      (Inr \<lparr>resp_answer = lit ''Call police'' @ [10] @ lit ''File FIR'', resp_references = [],
            resp_cases = [], resp_is_follow_up = True, resp_session_id = lit ''s1''\<rparr>,
       resolved_store,
       snd (generate_direct_answer demo_env (sanitize_query (req_query follow_up_request))
              (join [10] [lit ''Previous: '' @ lit ''road accident'',
                          lit ''Answer: '' @ lit ''Call police''])))"
    using try_body_follow_up [OF follow_up_request_facts c r k]
    by (simp add: ans g) (simp add: follow_up_request_def)
  then have "fst (process_legal_query demo_env resolved_store follow_up_request) =
     Inr \<lparr>resp_answer = lit ''Call police'' @ [10] @ lit ''File FIR'', resp_references = [],
          resp_cases = [], resp_is_follow_up = True, resp_session_id = lit ''s1''\<rparr>"
    by (simp add: process_legal_query_ok)
  moreover from t have "fst (snd (process_legal_query demo_env resolved_store follow_up_request)) =
      resolved_store"
    by (simp add: process_legal_query_store)
  ultimately show ?thesis
    by (simp add: resolved_store_def resolved_session_def)
qed

text \<open>
  C6: on the fresh branch, when retrieval raises, the request ends with an error for the
  caller; and whenever a request on the fresh branch ends with an error, whatever raised
  it, the store is the one the session lookup left, so the session holds the
  \<open>current_context\<close>, \<open>references\<close>, \<open>cases\<close> and \<open>history\<close> it had when it was looked up.
  Generation never raises out of \<open>generate_with_bart\<close>.
\<close>

theorem fresh_failure_no_mutation:
  assumes "3 \<le> length (sanitize_query (req_query request))"
    and "\<not> is_follow_up env (sanitize_query (req_query request))
           (fst (get_session store (req_session_id request)))"
  shows "(\<forall>x. fst (find_relevant_sections env (sanitize_query (req_query request)) 5) = Inl x \<longrightarrow>
            fst (process_legal_query env store request) = Inl (HTTPException 500 (exc_str env x))) \<and>
         (\<forall>e. fst (process_legal_query env store request) = Inl e \<longrightarrow>
            fst (snd (process_legal_query env store request)) =
              snd (get_session store (req_session_id request)) \<and>
            fst (snd (process_legal_query env store request)) (req_session_id request) =
              Some (fst (get_session store (req_session_id request))) \<and>
            (\<forall>s. store (req_session_id request) = Some s \<longrightarrow>
               fst (snd (process_legal_query env store request)) = store))"
proof (intro conjI allI impI)
  fix x
  assume "fst (find_relevant_sections env (sanitize_query (req_query request)) 5) = Inl x"
  then show "fst (process_legal_query env store request) = Inl (HTTPException 500 (exc_str env x))"
    by (intro process_legal_query_error) (simp add: try_body_retrieval_error [OF assms])
next
  fix e
  assume "fst (process_legal_query env store request) = Inl e"
  then obtain e' where "fst (try_body env store request) = Inl e'"
    by (blast dest: process_legal_query_error_iff)
  then have st: "fst (snd (process_legal_query env store request)) =
      snd (get_session store (req_session_id request))"
    by (simp add: process_legal_query_store try_body_error_store)
  then show "fst (snd (process_legal_query env store request)) =
      snd (get_session store (req_session_id request))" .
  from st show "fst (snd (process_legal_query env store request)) (req_session_id request) =
      Some (fst (get_session store (req_session_id request)))"
    by (simp add: get_session_lookup)
  fix s
  assume "store (req_session_id request) = Some s"
  with st show "fst (snd (process_legal_query env store request)) = store"
    by (simp add: get_session_old)
qed

text \<open>C6 with a retrieval that raises, on the store with one resolved turn.\<close>

theorem fresh_failure_no_mutation_witness:
  "fst (process_legal_query failing_env resolved_store fresh_request) =
     Inl (HTTPException 500 (lit ''index'')) \<and>
   fst (snd (process_legal_query failing_env resolved_store fresh_request)) = resolved_store \<and>
   fst (snd (process_legal_query failing_env resolved_store fresh_request)) (lit ''s1'') =
     Some resolved_session"
proof -
  have q: "sanitize_query (req_query fresh_request) = lit ''road accident''"
    by (simp add: fresh_request_def sanitize_road_accident)
  have len: "3 \<le> length (sanitize_query (req_query fresh_request))"
    unfolding q by (simp add: lit_def)
  have g: "get_session resolved_store (req_session_id fresh_request) =
             (resolved_session, resolved_store)"
    by (simp add: get_session_def resolved_store_def fresh_request_def)
  have "\<not> contains m (lit ''road accident'')" if "m \<in> set follow_up_indicators" for m
    using that by (auto simp: follow_up_indicators_def lit_def)
  then have nf: "\<not> is_follow_up failing_env (sanitize_query (req_query fresh_request))
              (fst (get_session resolved_store (req_session_id fresh_request)))"
    unfolding q g
    by (simp add: is_follow_up_def list_ex_iff failing_env_def demo_env_def ascii_lower_def
        lit_def [of "''road accident''"])
  have ret: "fst (find_relevant_sections failing_env (sanitize_query (req_query fresh_request)) 5)
               = Inl (OtherException (lit ''index''))"
    by (simp add: find_relevant_sections_def failing_env_def demo_env_def)
  have ex: "exc_str failing_env (OtherException (lit ''index'')) = lit ''index''"
    by (simp add: failing_env_def demo_env_def)
  have look: "resolved_store (req_session_id fresh_request) = Some resolved_session"
    by (simp add: resolved_store_def fresh_request_def)
  from fresh_failure_no_mutation [OF len nf] ret ex look g
  show ?thesis
    by (simp add: fresh_request_def)
qed

text \<open>
  C7 is not what the code does, for the reason given at C1: for the query \<open>"hi"\<close>, with
  any collaborators and any store, no collaborator is called (the list of calls is
  empty), but the caller receives status 500 and not the rejection with status 400 that
  the \<open>try\<close> block raises.
\<close>

theorem short_query_rejected_with_500:
  "process_legal_query env store short_request =
     (Inl (HTTPException 500
             (exc_str env (HTTPException 400 (lit ''Please ask a more detailed question.'')))),
      snd (get_session store (lit ''s1'')), [])"
proof -
  have short: "length (sanitize_query (req_query short_request)) < 3"
    by (simp add: short_request_def sanitize_hi) (simp add: lit_def)
  show ?thesis
    by (simp add: process_legal_query_def try_body_short [OF short]) (simp add: short_request_def)
qed

text \<open>
  C10: the session is looked up before the query is validated, so a request that is
  rejected as too short, for a session id that the store does not hold, leaves the store
  with a fresh session under that id (\<open>current_context\<close>, \<open>references\<close> and \<open>cases\<close>
  \<open>None\<close>, empty history) and otherwise unchanged.
\<close>

theorem short_request_creates_session:
  assumes "length (sanitize_query (req_query request)) < 3"
    and "store (req_session_id request) = None"
  shows "fst (snd (process_legal_query env store request)) =
           store(req_session_id request \<mapsto>
             \<lparr>current_context = None, references = None, cases = None, history = []\<rparr>) \<and>
         (\<exists>e. fst (process_legal_query env store request) = Inl e)"
  using assms
  by (simp add: process_legal_query_def try_body_short get_session_new empty_session_def)

text \<open>C10 for the query \<open>"hi"\<close> on the empty store.\<close>

theorem short_request_creates_session_witness:
  "fst (snd (process_legal_query demo_env Map.empty short_request)) =
     [lit ''s1'' \<mapsto> \<lparr>current_context = None, references = None, cases = None, history = []\<rparr>]"
proof -
  have short: "length (sanitize_query (req_query short_request)) < 3"
    by (simp add: short_request_def sanitize_hi) (simp add: lit_def)
  have none: "Map.empty (req_session_id short_request) = None" by simp
  from short_request_creates_session [OF short none, of demo_env]
  show ?thesis by (simp add: short_request_def)
qed

section \<open>The session invariant is kept\<close>

lemma empty_session_consistent: "session_consistent empty_session"
  by (simp add: session_consistent_def empty_session_def)

lemma get_session_consistent:
  assumes "store_consistent store"
  shows "store_consistent (snd (get_session store sid))"
    and "session_consistent (fst (get_session store sid))"
  using assms empty_session_consistent
  by (auto simp: store_consistent_def get_session_def split: option.splits)

lemma update_consistent:
  assumes "store_consistent store"
  shows "store_consistent (update store sid query answer refs cs)"
  unfolding store_consistent_def
proof (intro allI impI)
  fix other s
  assume look: "update store sid query answer refs cs other = Some s"
  show "session_consistent s"
  proof (cases "other = sid")
    case True
    from get_session_consistent(2) [OF assms, of sid]
    have "even (length (history (fst (get_session store sid))))"
      by (simp add: session_consistent_def)
    with look True show ?thesis
      by (auto simp: update_lookup session_consistent_def)
  next
    case False
    with look have "store other = Some s" by (simp add: update_other)
    with assms show ?thesis by (simp add: store_consistent_def)
  qed
qed

lemma process_legal_query_consistent:
  assumes "store_consistent store"
  shows "store_consistent (fst (snd (process_legal_query env store request)))"
proof -
  let ?st1 = "snd (get_session store (req_session_id request))"
  have st1: "store_consistent ?st1" using assms by (rule get_session_consistent)
  from try_body_store_cases [of env store request]
  show ?thesis
  proof
    assume "fst (snd (try_body env store request)) = ?st1"
    with st1 show ?thesis by (simp add: process_legal_query_store)
  next
    assume "\<exists>query answer refs cs.
      fst (snd (try_body env store request)) =
        update ?st1 (req_session_id request) query answer refs cs"
    then obtain query answer refs cs where
      "fst (snd (try_body env store request)) =
         update ?st1 (req_session_id request) query answer refs cs"
      by blast
    with update_consistent [OF st1] show ?thesis by (simp add: process_legal_query_store)
  qed
qed

lemma serve_consistent: "store_consistent store \<Longrightarrow> store_consistent (serve store steps)"
proof (induction steps arbitrary: store)
  case Nil
  then show ?case by simp
next
  case (Cons step steps)
  obtain env request where step: "step = (env, request)" by (cases step)
  from Cons.prems have "store_consistent (fst (snd (process_legal_query env store request)))"
    by (rule process_legal_query_consistent)
  then have "store_consistent (serve (fst (snd (process_legal_query env store request))) steps)"
    by (rule Cons.IH)
  with step show ?case by simp
qed

lemma try_body_fresh_store:
  assumes "3 \<le> length (sanitize_query (req_query request))"
    and "\<not> is_follow_up env (sanitize_query (req_query request))
           (fst (get_session store (req_session_id request)))"
    and "fst (find_relevant_sections env (sanitize_query (req_query request)) 5) = Inr secs"
    and "secs \<noteq> []"
    and "fst (fetch_kanoon_results env (sanitize_query (req_query request)) 3) = Inr cs"
  shows "\<exists>answer refs.
           fst (try_body env store request) =
             Inr \<lparr>resp_answer = answer, resp_references = refs, resp_cases = cs,
                  resp_is_follow_up = False, resp_session_id = req_session_id request\<rparr> \<and>
           fst (snd (try_body env store request)) =
             update (snd (get_session store (req_session_id request))) (req_session_id request)
               (sanitize_query (req_query request)) answer refs cs"
  using assms by (simp add: try_body_def Let_def case_prod_beta)

text \<open>
  C9: in every store that a sequence of requests builds from the empty store, every
  session has a history of even length, and its \<open>references\<close> and \<open>cases\<close> are the ones
  stored in its \<open>current_context\<close>; a session without a resolved turn has \<open>None\<close> for
  all three and an empty history.
\<close>

theorem served_sessions_consistent:
  assumes "serve Map.empty steps sid = Some s"
  shows "even (length (history s)) \<and>
         (\<forall>c. current_context s = Some c \<longrightarrow>
            references s = Some (ctx_references c) \<and> cases s = Some (ctx_cases c)) \<and>
         (current_context s = None \<longrightarrow>
            references s = None \<and> cases s = None \<and> history s = [])"
proof -
  have "store_consistent Map.empty" by (simp add: store_consistent_def)
  then have "store_consistent (serve Map.empty steps)" by (rule serve_consistent)
  with assms have "session_consistent s" by (simp add: store_consistent_def)
  then show ?thesis by (auto simp: session_consistent_def split: option.splits)
qed

text \<open>C9 after one resolved turn in session \<open>"s1"\<close>.\<close>

theorem served_sessions_consistent_witness:
  "length (history (the (serve Map.empty [(demo_env, fresh_request)] (lit ''s1'')))) = 2 \<and>
   even (length (history (the (serve Map.empty [(demo_env, fresh_request)] (lit ''s1''))))) \<and>
   current_context (the (serve Map.empty [(demo_env, fresh_request)] (lit ''s1''))) \<noteq> None \<and>
   references (the (serve Map.empty [(demo_env, fresh_request)] (lit ''s1''))) =
     Some (ctx_references
             (the (current_context (the (serve Map.empty [(demo_env, fresh_request)] (lit ''s1''))))))"
proof -
  have q: "sanitize_query (req_query fresh_request) = lit ''road accident''"
    by (simp add: fresh_request_def sanitize_road_accident)
  have len: "3 \<le> length (sanitize_query (req_query fresh_request))"
    unfolding q by (simp add: lit_def)
  have g: "fst (get_session Map.empty (req_session_id fresh_request)) = empty_session"
    by (simp add: get_session_def)
  have nf: "\<not> is_follow_up demo_env (sanitize_query (req_query fresh_request))
              (fst (get_session Map.empty (req_session_id fresh_request)))"
    unfolding g by simp
  have ret: "fst (find_relevant_sections demo_env (sanitize_query (req_query fresh_request)) 5) =
      Inr [\<lparr>sec_act = lit ''IPC'', sec_section_number = lit ''279'',
            sec_text = lit ''Rash driving'', sec_score = 0\<rparr>]"
    by (simp add: find_relevant_sections_def demo_env_def enumerate_eq_zip)
  have fetch: "fst (fetch_kanoon_results demo_env (sanitize_query (req_query fresh_request)) 3) =
      Inr [long_case]"
    by (simp add: fetch_kanoon_results_def demo_env_def long_case_def)
  from try_body_fresh_store [OF len nf ret _ fetch]
  obtain answer refs where
    "fst (snd (try_body demo_env Map.empty fresh_request)) =
       update (snd (get_session Map.empty (req_session_id fresh_request)))
         (req_session_id fresh_request) (sanitize_query (req_query fresh_request))
         answer refs [long_case]"
    by auto
  then have st: "serve Map.empty [(demo_env, fresh_request)] (lit ''s1'') =
      Some (empty_session
        \<lparr>current_context :=
           Some \<lparr>ctx_query = lit ''road accident'', ctx_answer = answer,
                 ctx_references = refs, ctx_cases = [long_case]\<rparr>,
         references := Some refs, cases := Some [long_case],
         history := [(User, lit ''road accident''), (Assistant, answer)]\<rparr>)"
    by (simp add: process_legal_query_store sanitize_road_accident fresh_request_def
        update_lookup get_session_def empty_session_def)
  from served_sessions_consistent [OF st] st show ?thesis
    by simp
qed

section \<open>Properties of the response composer\<close>

lemma format_response_related_cases:
  "cs \<noteq> [] \<Longrightarrow>
   fst (format_response env base_answer refs cs) =
     fst (format_response env base_answer refs []) @ [10, 10, 128279] @
     lit '' Related Cases:'' @ concat (map case_line (take 2 cs))"
  by (simp add: format_response_def Let_def case_prod_beta foldl_append_concat)

lemma fetch_kanoon_results_titles:
  "fst (fetch_kanoon_results env query max_results) = Inr found \<Longrightarrow>
   list_all (\<lambda>c. length (title c) \<le> 80) found \<and> length found \<le> max_results"
  by (auto simp: fetch_kanoon_results_def Let_def list_all_iff
      split: sum.splits option.splits dest!: in_set_takeD)

text \<open>
  C4 (amended): for a non-empty list of cases, the composed response ends with the
  header of the Related Cases section followed by one line for each of the first two
  cases, of the form \<open>- {first 50 characters of the title} ({url})\<close>. The fetcher cuts a
  title to at most 80 characters; the composer cuts it again to 50.
\<close>

theorem related_cases_lines:
  "(cs \<noteq> [] \<longrightarrow>
      fst (format_response env base_answer refs cs) =
        fst (format_response env base_answer refs []) @ [10, 10, 128279] @
        lit '' Related Cases:'' @
        concat (map (\<lambda>c. [10] @ lit ''- '' @ take 50 (title c) @ lit '' ('' @
                          str_url (url c) @ lit '')'')
                  (take 2 cs))) \<and>
   (fst (fetch_kanoon_results env query max_results) = Inr found \<longrightarrow>
      list_all (\<lambda>c. length (title c) \<le> 80) found \<and> length found \<le> max_results)"
proof -
  have "case_line = (\<lambda>c. [10] @ lit ''- '' @ take 50 (title c) @ lit '' ('' @
                          str_url (url c) @ lit '')'')"
    by (rule ext) (simp add: case_line_def)
  with format_response_related_cases [of cs env base_answer refs]
    fetch_kanoon_results_titles [of env query max_results found]
  show ?thesis by simp
qed

lemma fetch_demo: "fst (fetch_kanoon_results demo_env (lit ''road accident'') 3) = Inr [long_case]"
  by (simp add: fetch_kanoon_results_def demo_env_def long_case_def)

lemma format_demo_line:
  "fst (format_response demo_env (lit ''Call police'') [] [long_case]) =
     fst (format_response demo_env (lit ''Call police'') [] []) @ [10, 10, 128279] @
     lit '' Related Cases:'' @ [10] @ lit ''- '' @ replicate 50 65 @ lit '' (http://k/1)''"
proof -
  have "take 50 (replicate 60 65 :: nat list) = replicate 50 65" by simp
  moreover have "lit '' ('' @ lit ''http://k/1'' @ lit '')'' = lit '' (http://k/1)''"
    by (simp add: lit_def)
  ultimately show ?thesis
    by (simp add: format_response_related_cases case_line_def long_case_def str_url_def)
qed

text \<open>C4 (amended) on the case that the fetcher builds from a link text of 60 characters.\<close>

theorem related_cases_lines_witness:
  "fst (format_response demo_env (lit ''Call police'') [] [long_case]) =
     fst (format_response demo_env (lit ''Call police'') [] []) @ [10, 10, 128279] @
     lit '' Related Cases:'' @ [10] @ lit ''- '' @ replicate 50 65 @ lit '' (http://k/1)'' \<and>
   length (title long_case) \<le> 80"
proof -
  have "take 50 (replicate 60 65 :: nat list) = replicate 50 65" by simp
  moreover have "lit '' ('' @ lit ''http://k/1'' @ lit '')'' = lit '' (http://k/1)''"
    by (simp add: lit_def)
  moreover note related_cases_lines [of "[long_case]" demo_env "lit ''Call police''" "[]"
      "lit ''road accident''" 3 "[long_case]"] fetch_demo
  ultimately show ?thesis
    by (simp add: long_case_def str_url_def)
qed

text \<open>
  C4 as stated fails: the fetcher returns a case whose title has 60 characters, within
  its limit of 80, and the line rendered for it holds only the first 50 of them, which
  is not the title of the case.
\<close>

theorem related_cases_title_cut_to_50:
  "fst (fetch_kanoon_results demo_env (lit ''road accident'') 3) = Inr [long_case] \<and>
   length (title long_case) = 60 \<and>
   fst (format_response demo_env (lit ''Call police'') [] [long_case]) =
     fst (format_response demo_env (lit ''Call police'') [] []) @ [10, 10, 128279] @
     lit '' Related Cases:'' @ [10] @ lit ''- '' @ replicate 50 65 @ lit '' (http://k/1)'' \<and>
   replicate 50 65 \<noteq> title long_case"
proof -
  have "length (replicate 50 (65::nat)) \<noteq> length (title long_case)"
    by (simp add: long_case_def)
  then have "replicate 50 65 \<noteq> title long_case" by metis
  with fetch_demo format_demo_line show ?thesis by (simp add: long_case_def)
qed

end
